theory Spec2Isabelle
  imports Main "HOL-Library.Sublist"
begin

section \<open>Library functions used by main.go\<close>

subsection \<open>Package strings\<close>

text \<open>
  Go strings are byte sequences; \<^typ>\<open>string\<close> is a list of bytes as well.
  \<open>strings.HasPrefix(s, prefix)\<close>, \<open>strings.Contains(s, substr)\<close> and
  \<open>strings.Replace(s, old, new, -1)\<close> (main.go only ever passes \<open>-1\<close>, replace every
  occurrence). \<open>Replace\<close> scans from the left, and after a match continues behind the
  matched occurrence; the text it has already produced is never scanned again.
\<close>

definition HasPrefix :: "string \<Rightarrow> string \<Rightarrow> bool" where
  "HasPrefix s p = prefix p s"

fun Contains :: "string \<Rightarrow> string \<Rightarrow> bool" where
  "Contains [] substr = (substr = [])"
| "Contains (c # cs) substr = (prefix substr (c # cs) \<or> Contains cs substr)"

fun replace_nonempty :: "string \<Rightarrow> string \<Rightarrow> string \<Rightarrow> string" where
  "replace_nonempty old new [] = []"
| "replace_nonempty old new (c # cs) =
     (if prefix old (c # cs) then new @ replace_nonempty old new (drop (length old - 1) cs)
      else c # replace_nonempty old new cs)"

definition Replace :: "string \<Rightarrow> string \<Rightarrow> string \<Rightarrow> string" where
  "Replace s old new =
     (if old = new then s
      else if old = [] then new @ concat (map (\<lambda>c. c # new) s)
      else replace_nonempty old new s)"

text \<open>\<open>%d\<close> of a status code: the decimal digits.\<close>

function Itoa :: "nat \<Rightarrow> string" where
  "Itoa n = (if n < 10 then [''0123456789'' ! n] else Itoa (n div 10) @ [''0123456789'' ! (n mod 10)])"
  by pat_completeness auto
termination
  by (relation "measure (\<lambda>n. n)") auto

declare Itoa.simps [simp del]

subsection \<open>Package regexp\<close>

text \<open>
  The two patterns of main.go are sequences of literals, greedy \<open>.*\<close> (any character
  but newline), a negated character class and an alternation of literals. Go's regexp
  returns the leftmost match and, among the matches that start there, the one a
  backtracking search finds first: a greedy star tries the longest repetition first, an
  alternation its branches from the left. \<open>rx_match\<close> is that search at one start
  position; it returns the text matched by each item.
\<close>

datatype item = Lit string | AnyStar | NoneOf string | Alt "string list"

fun first_some :: "('a \<Rightarrow> 'b option) \<Rightarrow> 'a list \<Rightarrow> 'b option" where
  "first_some f [] = None"
| "first_some f (x # xs) = (case f x of Some y \<Rightarrow> Some y | None \<Rightarrow> first_some f xs)"

fun rx_match :: "item list \<Rightarrow> string \<Rightarrow> string list option" where
  "rx_match [] s = Some []"
| "rx_match (Lit l # r) s =
     (if prefix l s then map_option ((#) l) (rx_match r (drop (length l) s)) else None)"
| "rx_match (AnyStar # r) s =
     first_some (\<lambda>k. map_option ((#) (take k s)) (rx_match r (drop k s)))
       (rev [0..<Suc (length (takeWhile (\<lambda>c. c \<noteq> CHR 0x0A) s))])"
| "rx_match (NoneOf cs # r) s =
     (case s of [] \<Rightarrow> None
      | c # s' \<Rightarrow> if c \<in> set cs then None else map_option ((#) [c]) (rx_match r s'))"
| "rx_match (Alt alts # r) s =
     first_some
       (\<lambda>a. if prefix a s then map_option ((#) a) (rx_match r (drop (length a) s)) else None)
       alts"

text \<open>
  A compiled pattern: its items, and its capture groups as ranges of items
  (from, to). \<open>submatches\<close> is one element of the result of
  \<open>FindAllStringSubmatch\<close>: the whole match, then the text of each group.
\<close>

record regexp =
  items :: "item list"
  groups :: "(nat \<times> nat) list"

definition submatches :: "regexp \<Rightarrow> string list \<Rightarrow> string list" where
  "submatches re ms = concat ms # map (\<lambda>(i, j). concat (take (j - i) (drop i ms))) (groups re)"

definition MatchString :: "regexp \<Rightarrow> string \<Rightarrow> bool" where
  "MatchString re s = (\<exists>k \<in> set [0..<Suc (length s)]. rx_match (items re) (drop k s) \<noteq> None)"

text \<open>
  All successive matches, each search starting behind the previous match. (Neither pattern
  of main.go matches the empty string; for an empty match the model moves on by one
  character.)
\<close>

fun FindAllStringSubmatch :: "regexp \<Rightarrow> string \<Rightarrow> string list list" where
  "FindAllStringSubmatch re [] =
     (case rx_match (items re) [] of Some ms \<Rightarrow> [submatches re ms] | None \<Rightarrow> [])"
| "FindAllStringSubmatch re (c # cs) =
     (case rx_match (items re) (c # cs) of
        None \<Rightarrow> FindAllStringSubmatch re cs
      | Some ms \<Rightarrow> submatches re ms #
          FindAllStringSubmatch re (drop (length (concat ms) - 1) cs))"

text \<open>
  \<open>re.ReplaceAllString(src, repl)\<close> for a replacement without \<open>$\<close> references
  (main.go passes \<open>"## "\<close>).
\<close>

fun ReplaceAllString :: "regexp \<Rightarrow> string \<Rightarrow> string \<Rightarrow> string" where
  "ReplaceAllString re [] repl =
     (case rx_match (items re) [] of Some ms \<Rightarrow> repl | None \<Rightarrow> [])"
| "ReplaceAllString re (c # cs) repl =
     (case rx_match (items re) (c # cs) of
        None \<Rightarrow> c # ReplaceAllString re cs repl
      | Some ms \<Rightarrow>
          if concat ms = [] then repl @ c # ReplaceAllString re cs repl
          else repl @ ReplaceAllString re (drop (length (concat ms) - 1) cs) repl)"

subsection \<open>Package goquery: the parsed document\<close>

text \<open>
  A document is the list of the nodes below its root; an element has a tag, its
  attributes in order, and its children. \<open>Find\<close> visits the descendants in document
  order; the selector of main.go is \<open>img[src], link[href], script[src]\<close>.
\<close>

datatype node = Element string "(string \<times> string) list" "node list" | Text string

type_synonym document = "node list"

fun nodes_of :: "node \<Rightarrow> node list" where
  "nodes_of (Text t) = [Text t]"
| "nodes_of (Element tg as ch) = Element tg as ch # concat (map nodes_of ch)"

fun Attr :: "node \<Rightarrow> string \<Rightarrow> string option" where
  "Attr (Element tg as ch) k = map_of as k"
| "Attr (Text t) k = None"

fun SetAttr :: "(string \<times> string) list \<Rightarrow> string \<Rightarrow> string \<Rightarrow> (string \<times> string) list" where
  "SetAttr [] k v = [(k, v)]"
| "SetAttr ((k', v') # as) k v = (if k' = k then (k, v) # as else (k', v') # SetAttr as k v)"

fun selected :: "node \<Rightarrow> bool" where
  "selected (Element tg as ch) =
     (if tg = ''img'' then map_of as ''src'' \<noteq> None
      else if tg = ''link'' then map_of as ''href'' \<noteq> None
      else if tg = ''script'' then map_of as ''src'' \<noteq> None
      else False)"
| "selected (Text t) = False"

definition Find :: "document \<Rightarrow> node list" where
  "Find doc = filter selected (concat (map nodes_of doc))"

section \<open>The environment and the state of a run\<close>

text \<open>
  What main.go reads from outside is an \<open>env\<close>: how the link parses
  (\<open>url.Parse\<close>), what each URL answers (\<open>http.Get\<close>), how goquery parses and renders,
  the path functions of \<open>path/filepath\<close>, and which file-system calls fail.
  What it changes is a \<open>world\<close>: files and directories, the lines printed, the
  requests issued, the response bodies and files that are open, the working directory.
\<close>

record url =
  url_Host :: string
  url_Path :: string
  url_String :: string

record response =
  StatusCode :: nat
  Body :: string
  BodyErr :: "string option"

record env =
  url_Parse :: "string \<Rightarrow> string + url"
  http_Get :: "string \<Rightarrow> string + response"
  NewDocumentFromReader :: "string \<Rightarrow> string + document"
  Html :: "document \<Rightarrow> string + string"
  Join :: "string list \<Rightarrow> string"
  Base :: "string \<Rightarrow> string"
  Dir :: "string \<Rightarrow> string"
  MkdirAll_err :: "string \<Rightarrow> string option"
  Create_err :: "string \<Rightarrow> string option"
  Write_err :: "string \<Rightarrow> (nat \<times> string) option"
  Chdir_err :: "string \<Rightarrow> string option"
  Run_err :: "string list \<Rightarrow> string option"

datatype handle = RespBody string | File string

record world =
  files :: "string \<rightharpoonup> string"
  dirs :: "string list"
  stdout :: "string list"
  requests :: "string list"
  open_handles :: "handle list"
  cwd :: string

definition Print :: "string \<Rightarrow> world \<Rightarrow> world" where
  "Print s w = w\<lparr>stdout := stdout w @ [s]\<rparr>"

definition resolve :: "env \<Rightarrow> world \<Rightarrow> string \<Rightarrow> string" where
  "resolve E w p = (if cwd w = [] then p else Join E [cwd w, p])"

definition Get :: "env \<Rightarrow> string \<Rightarrow> world \<Rightarrow> (string + response) \<times> world" where
  "Get E u w =
     (case http_Get E u of
        Inl err \<Rightarrow> (Inl err, w\<lparr>requests := requests w @ [u]\<rparr>)
      | Inr resp \<Rightarrow>
          (Inr resp, w\<lparr>requests := requests w @ [u],
                        open_handles := RespBody u # open_handles w\<rparr>))"

definition Close :: "handle \<Rightarrow> world \<Rightarrow> world" where
  "Close h w = w\<lparr>open_handles := remove1 h (open_handles w)\<rparr>"

definition MkdirAll :: "env \<Rightarrow> string \<Rightarrow> world \<Rightarrow> string option \<times> world" where
  "MkdirAll E p w =
     (case MkdirAll_err E (resolve E w p) of
        Some err \<Rightarrow> (Some err, w)
      | None \<Rightarrow> (None, w\<lparr>dirs := dirs w @ [resolve E w p]\<rparr>))"

definition Create :: "env \<Rightarrow> string \<Rightarrow> world \<Rightarrow> (string + string) \<times> world" where
  "Create E p w =
     (case Create_err E (resolve E w p) of
        Some err \<Rightarrow> (Inl err, w)
      | None \<Rightarrow>
          (Inr (resolve E w p),
           w\<lparr>files := (files w)(resolve E w p \<mapsto> []),
             open_handles := File (resolve E w p) # open_handles w\<rparr>))"

text \<open>
  Writing \<open>data\<close> to the open file \<open>f\<close>: a file whose writes fail after \<open>n\<close> bytes
  keeps those bytes (no cleanup), and the error is returned.
\<close>

definition Write :: "env \<Rightarrow> string \<Rightarrow> string \<Rightarrow> world \<Rightarrow> string option \<times> world" where
  "Write E f data w =
     (case Write_err E f of
        Some (n, err) \<Rightarrow>
          if n < length data then (Some err, w\<lparr>files := (files w)(f \<mapsto> take n data)\<rparr>)
          else (None, w\<lparr>files := (files w)(f \<mapsto> data)\<rparr>)
      | None \<Rightarrow> (None, w\<lparr>files := (files w)(f \<mapsto> data)\<rparr>))"

text \<open>
  \<open>io.Copy(file, resp.Body)\<close>: the bytes the body delivers are written to the file; the
  copy fails when the write fails or when reading the body ends in an error.
\<close>

definition Copy :: "env \<Rightarrow> string \<Rightarrow> response \<Rightarrow> world \<Rightarrow> string option \<times> world" where
  "Copy E f resp w =
     (case Write E f (Body resp) w of
        (Some err, w') \<Rightarrow> (Some err, w')
      | (None, w') \<Rightarrow> (BodyErr resp, w'))"

section \<open>main.go\<close>

subsection \<open>Errors and exit status\<close>

text \<open>
  The errors \<open>getReadme\<close> and \<open>downloadAssets\<close> return, with the text of
  \<open>err.Error()\<close>; \<open>Panic\<close> is a panic raised inside the function. A run ends by
  returning from \<open>main\<close> (exit code 0), by \<open>os.Exit\<close>, or by a panic (exit code 2).
\<close>

datatype error =
    TransportError string
  | StatusError nat
  | ReadError string
  | CreateError string
  | WriteError string
  | MkdirError string
  | Panic string

fun Error :: "error \<Rightarrow> string" where
  "Error (TransportError e) = e"
| "Error (StatusError c) = ''failed to retrieve the README.md file, status code: '' @ Itoa c"
| "Error (ReadError e) = ''failed to read response body: '' @ e"
| "Error (CreateError e) = ''failed to create README.md file: '' @ e"
| "Error (WriteError e) = ''failed to write README.md file: '' @ e"
| "Error (MkdirError e) = e"
| "Error (Panic e) = e"

datatype exit_status = Returned | Exited nat | Panicked string

fun exit_code :: "exit_status \<Rightarrow> nat" where
  "exit_code Returned = 0"
| "exit_code (Exited n) = n"
| "exit_code (Panicked e) = 2"

subsection \<open>Canonicalization\<close>

text \<open>
  The textual stripping of the raw-content marker, written twice in main.go
  (lines 124 and 166): \<open>strings.Replace(content, "?raw=true)", ")", -1)\<close>.
\<close>

definition strip_raw_suffix :: "string \<Rightarrow> string" where
  "strip_raw_suffix content = Replace content ''?raw=true)'' '')''"

text \<open>Line 125: \<open>regexp.MustCompile(`## <a .*></a>`)\<close>.\<close>

definition aRemoverRegex :: regexp where
  "aRemoverRegex = \<lparr>items = [Lit ''## <a '', AnyStar, Lit ''></a>''], groups = []\<rparr>"

text \<open>
  Lines 108 to 119: the callback run on every selected element of the parsed document.
  An attribute that exists and contains the marker is set to its value without it.
\<close>

definition strip_attr :: "string \<Rightarrow> (string \<times> string) list \<Rightarrow> (string \<times> string) list" where
  "strip_attr k as =
     (case map_of as k of
        Some v \<Rightarrow> if Contains v ''?raw=true'' then SetAttr as k (Replace v ''?raw=true'' []) else as
      | None \<Rightarrow> as)"

fun strip_node :: "node \<Rightarrow> node" where
  "strip_node (Text t) = Text t"
| "strip_node (Element tg as ch) =
     Element tg
       (if selected (Element tg as ch) then strip_attr ''href'' (strip_attr ''src'' as) else as)
       (map strip_node ch)"

subsection \<open>getReadme\<close>

definition getReadme :: "env \<Rightarrow> url \<Rightarrow> string \<Rightarrow> world \<Rightarrow> (error + document) \<times> world" where
  "getReadme E u b w =
     (let readmeURL = url_String u @ ''/raw/'' @ b @ ''/README.md'' in
      (case Get E readmeURL w of
         (Inl err, w) \<Rightarrow> (Inl (TransportError err), w)
       | (Inr resp, w) \<Rightarrow>
          (if StatusCode resp \<noteq> 200 then
             (Inl (StatusError (StatusCode resp)), Close (RespBody readmeURL) w)
           else
             (let buf = Body resp; w = Close (RespBody readmeURL) w in
              (case BodyErr resp of
                 Some err \<Rightarrow> (Inl (ReadError err), w)
               | None \<Rightarrow>
                  (case NewDocumentFromReader E buf of
                     Inl err \<Rightarrow> (Inl (Panic err), Print ''failed to parse the README.md file.\<newline>'' w)
                   | Inr parsed \<Rightarrow>
                      (let doc = map strip_node parsed;
                           content = buf;
                           content = strip_raw_suffix content;
                           content = ReplaceAllString aRemoverRegex content ''## ''
                       in (case Create E (Join E [''.'', Base E (url_Path u), ''README.md'']) w of
                             (Inl err, w) \<Rightarrow> (Inl (CreateError err), w)
                           | (Inr f, w) \<Rightarrow>
                              (case Write E f content w of
                                 (Some err, w) \<Rightarrow> (Inl (WriteError err), Close (File f) w)
                               | (None, w) \<Rightarrow> (Inr doc, Close (File f) w))))))))))"

subsection \<open>downloadAssets\<close>

text \<open>
  Lines 146 to 157: of every selected element, the \<open>src\<close> and then the \<open>href\<close>
  attribute, each kept when it does not start with \<open>http\<close>.
\<close>

definition local_attr :: "node \<Rightarrow> string \<Rightarrow> string list" where
  "local_attr s k =
     (case Attr s k of
        Some v \<Rightarrow> if \<not> HasPrefix v ''http'' then [v] else []
      | None \<Rightarrow> [])"

definition structural_assets :: "document \<Rightarrow> string list" where
  "structural_assets readme = concat (map (\<lambda>s. local_attr s ''src'' @ local_attr s ''href'') (Find readme))"

text \<open>
  Line 160: \<open>regexp.MustCompile(`(\[.*\]\()([^https?://].*\.(png|jpg|gif|svg))\)`)\<close>.
  \<open>[^https?://]\<close> is a character class: one character that is none of
  \<open>h t p s ? : /\<close>. Group 1 is items 0 to 2, group 2 items 3 to 6, group 3 item 6.
\<close>

definition regex :: regexp where
  "regex = \<lparr>items = [Lit ''['', AnyStar, Lit '']('', NoneOf ''https?://'', AnyStar, Lit ''.'',
                      Alt [''png'', ''jpg'', ''gif'', ''svg''], Lit '')''],
            groups = [(0, 3), (3, 7), (6, 7)]\<rparr>"

text \<open>Lines 166 to 173, on the rendered document \<open>content\<close>.\<close>

definition markdown_assets :: "string \<Rightarrow> string list" where
  "markdown_assets content =
     (let content = strip_raw_suffix content;
          matches = FindAllStringSubmatch regex content
      in concat (map (\<lambda>match. if length match < 3 \<or> match ! 2 = [] then [] else [match ! 2]) matches))"

text \<open>
  Lines 187 to 218: one iteration of the download loop. Beside the world it carries the
  calls deferred so far: \<open>defer\<close> inside the loop body registers the \<open>Close\<close> with the
  enclosing function, which runs them when \<open>downloadAssets\<close> returns. The error of the
  per-asset \<open>os.MkdirAll\<close> (line 203) is dropped by the code.
\<close>

definition download_asset :: "env \<Rightarrow> string \<Rightarrow> url \<Rightarrow> string \<Rightarrow> world \<times> handle list \<Rightarrow> string \<Rightarrow> world \<times> handle list" where
  "download_asset E dir u b st asset =
     (let w = fst st; deferred = snd st;
          assetURL = url_String u @ ''/raw/'' @ b @ ''/'' @ asset in
      (case Get E assetURL w of
         (Inl err, w) \<Rightarrow>
           (Print (''failed to download '' @ assetURL @ '': '' @ err @ ''\<newline>'') w, deferred)
       | (Inr resp, w) \<Rightarrow>
          (let deferred = RespBody assetURL # deferred in
           (if StatusCode resp \<noteq> 200 then
              (Print (''unexpected status code '' @ Itoa (StatusCode resp) @ '' for '' @ assetURL @ ''\<newline>'') w,
               deferred)
            else
              (let w = snd (MkdirAll E (Join E [dir, Dir E asset]) w);
                   filePath = Join E [dir, Dir E asset, Base E asset] in
               (case Create E filePath w of
                  (Inl err, w) \<Rightarrow>
                    (Print (''failed to create file '' @ filePath @ '': '' @ err @ ''\<newline>'') w, deferred)
                | (Inr file, w) \<Rightarrow>
                   (let deferred = File file # deferred in
                    (case Copy E file resp w of
                       (Some err, w) \<Rightarrow>
                         (Print (''failed to write content to file '' @ filePath @ '': '' @ err @ ''\<newline>'') w,
                          deferred)
                     | (None, w) \<Rightarrow> (w, deferred)))))))))"

definition run_deferred :: "handle list \<Rightarrow> world \<Rightarrow> world" where
  "run_deferred deferred w = fold Close deferred w"

definition downloadAssets :: "env \<Rightarrow> document \<Rightarrow> url \<Rightarrow> string \<Rightarrow> world \<Rightarrow> error option \<times> world" where
  "downloadAssets E readme u b w =
     (let assets = structural_assets readme in
      (case Html E readme of
         Inl err \<Rightarrow> (Some (Panic err), w)
       | Inr content \<Rightarrow>
          (let assets = assets @ markdown_assets content in
           (if length assets = 0 then (None, w)
            else
              (let dir = Join E [''.'', Base E (url_Path u)] in
               (case MkdirAll E dir w of
                  (Some err, w) \<Rightarrow> (Some (MkdirError err), w)
                | (None, w) \<Rightarrow>
                   (let st = foldl (download_asset E dir u b) (w, []) assets
                    in (None, run_deferred (snd st) (fst st)))))))))"

text \<open>
  An asset succeeds on its own when its request is answered with status 200, its file
  can be created, and the whole body can be read and written. (The per-asset
  \<open>os.MkdirAll\<close> is not part of it: main.go drops its error, and a missing directory
  shows as the failure of \<open>os.Create\<close>.)
\<close>

definition asset_succeeds :: "env \<Rightarrow> world \<Rightarrow> string \<Rightarrow> url \<Rightarrow> string \<Rightarrow> string \<Rightarrow> bool" where
  "asset_succeeds E w dir u b asset =
     (let filePath = resolve E w (Join E [dir, Dir E asset, Base E asset]) in
      case http_Get E (url_String u @ ''/raw/'' @ b @ ''/'' @ asset) of
        Inl err \<Rightarrow> False
      | Inr resp \<Rightarrow>
          StatusCode resp = 200 \<and> Create_err E filePath = None \<and>
          (case Write_err E filePath of Some (n, err) \<Rightarrow> length (Body resp) \<le> n | None \<Rightarrow> True) \<and>
          BodyErr resp = None)"

text \<open>Where an asset is written: \<open>filePath\<close> of line 204, seen from the working directory.\<close>

definition asset_path :: "env \<Rightarrow> world \<Rightarrow> string \<Rightarrow> string \<Rightarrow> string" where
  "asset_path E w dir asset = resolve E w (Join E [dir, Dir E asset, Base E asset])"

subsection \<open>main\<close>

text \<open>\<open>Args\<close> is \<open>os.Args\<close>: the program name, then the positional arguments.\<close>

definition expand_sh :: "string \<Rightarrow> string" where
  "expand_sh repoLink =
     ''#!/bin/bash\<newline>git clone '' @ repoLink @
     '' .repo\<newline>mv -f .repo/* .repo/.* ./\<newline>rm -rf .repo\<newline>rm expand.sh\<newline>git reset --hard\<newline>''"

definition write_script :: "env \<Rightarrow> string \<Rightarrow> url \<Rightarrow> world \<Rightarrow> world \<times> exit_status" where
  "write_script E repoLink u w =
     (let d = Join E [''.'', Base E (url_Path u)];
          w = (case Chdir_err E (resolve E w d) of
                 Some err \<Rightarrow> w
               | None \<Rightarrow> w\<lparr>cwd := resolve E w d\<rparr>) in
      (case Create E ''expand.sh'' w of
         (Inl err, w) \<Rightarrow> (w, Panicked err)
       | (Inr f, w) \<Rightarrow>
          (case Write E f (expand_sh repoLink) w of
             (Some err, w) \<Rightarrow> (Close (File f) w, Panicked err)
           | (None, w) \<Rightarrow>
              (case Run_err E [''chmod'', ''+x'', ''expand.sh''] of
                 Some err \<Rightarrow> (Close (File f) w, Panicked err)
               | None \<Rightarrow> (Close (File f) w, Returned)))))"

definition main :: "env \<Rightarrow> string list \<Rightarrow> world \<Rightarrow> world \<times> exit_status" where
  "main E Args w =
     (if length Args \<noteq> 2 then
        (Print ''Usage: go run main.go <github-repo-link> <branch-name>\<newline>'' w, Exited 1)
      else
        (let repoLink = Args ! 1;
             branchName = ''master'';
             branchName = (if length Args = 3 then Args ! 2 else branchName) in
         (case url_Parse E repoLink of
            Inl err \<Rightarrow> (w, Panicked err)
          | Inr u \<Rightarrow>
             (if \<not> HasPrefix (url_Host u) ''github.com'' then
                (Print ''The provided link is not a GitHub repository link\<newline>'' w, Exited 1)
              else
                (let w = snd (MkdirAll E (Join E [''.'', Base E (url_Path u)]) w) in
                 (case getReadme E u branchName w of
                    (Inl err, w) \<Rightarrow> (w, Panicked (Error err))
                  | (Inr readme, w) \<Rightarrow>
                     (case downloadAssets E readme u branchName w of
                        (Some err, w) \<Rightarrow> (w, Panicked (Error err))
                      | (None, w) \<Rightarrow> write_script E repoLink u w)))))))"

section \<open>Example environments\<close>

text \<open>
  Concrete environments for the examples below. Links of the form
  \<open>scheme://host/path\<close> parse into host and path; the path functions agree with
  \<open>path/filepath\<close> on clean relative paths; the HTTP server is a table from URLs to
  status and body, and every other URL is a transport error; the parser returns a given
  document; no file-system call fails.
\<close>

definition example_Parse :: "string \<Rightarrow> string + url" where
  "example_Parse s =
     (let r = drop 3 (dropWhile (\<lambda>c. c \<noteq> CHR '':'') s) in
      Inr \<lparr>url_Host = takeWhile (\<lambda>c. c \<noteq> CHR ''/'') r,
           url_Path = dropWhile (\<lambda>c. c \<noteq> CHR ''/'') r,
           url_String = s\<rparr>)"

definition example_Base :: "string \<Rightarrow> string" where
  "example_Base p = rev (takeWhile (\<lambda>c. c \<noteq> CHR ''/'') (rev p))"

definition example_Dir :: "string \<Rightarrow> string" where
  "example_Dir p =
     (let d = rev (drop 1 (dropWhile (\<lambda>c. c \<noteq> CHR ''/'') (rev p))) in if d = [] then ''.'' else d)"

fun join_with_slash :: "string list \<Rightarrow> string" where
  "join_with_slash [] = []"
| "join_with_slash [p] = p"
| "join_with_slash (p # q # ps) = p @ ''/'' @ join_with_slash (q # ps)"

definition example_Join :: "string list \<Rightarrow> string" where
  "example_Join ps =
     (let qs = filter (\<lambda>p. p \<noteq> ''.'' \<and> p \<noteq> []) ps in if qs = [] then ''.'' else join_with_slash qs)"

definition serve :: "(string \<times> nat \<times> string) list \<Rightarrow> string \<Rightarrow> string + response" where
  "serve table u =
     (case map_of table u of
        Some (code, body) \<Rightarrow> Inr \<lparr>StatusCode = code, Body = body, BodyErr = None\<rparr>
      | None \<Rightarrow> Inl ''no such host'')"

text \<open>
  Rendering, for documents whose texts and attribute values need no escaping: elements
  without content (\<open>img\<close>, \<open>link\<close>, \<open>br\<close>, \<open>hr\<close>, \<open>meta\<close>) are written
  \<open><img .../>\<close>, as \<open>html.Render\<close> writes them.
\<close>

fun example_attrs :: "(string \<times> string) list \<Rightarrow> string" where
  \<open>example_attrs [] = []\<close>
| \<open>example_attrs ((k, v) # as) = '' '' @ k @ ''="'' @ v @ ''"'' @ example_attrs as\<close>

fun example_render :: "node \<Rightarrow> string" where
  "example_render (Text t) = t"
| "example_render (Element tg as ch) =
     (if tg \<in> set [''img'', ''link'', ''br'', ''hr'', ''meta''] then
        ''<'' @ tg @ example_attrs as @ ''/>''
      else ''<'' @ tg @ example_attrs as @ ''>'' @ concat (map example_render ch) @ ''</'' @ tg @ ''>'')"

definition example_env :: "(string \<times> nat \<times> string) list \<Rightarrow> document \<Rightarrow> env" where
  "example_env table doc =
     \<lparr>url_Parse = example_Parse,
      http_Get = serve table,
      NewDocumentFromReader = (\<lambda>buf. Inr doc),
      Html = (\<lambda>d. Inr (concat (map example_render d))),
      Join = example_Join,
      Base = example_Base,
      Dir = example_Dir,
      MkdirAll_err = (\<lambda>p. None),
      Create_err = (\<lambda>p. None),
      Write_err = (\<lambda>p. None),
      Chdir_err = (\<lambda>p. None),
      Run_err = (\<lambda>c. None)\<rparr>"

definition example_url :: url where
  "example_url =
     \<lparr>url_Host = ''github.com'', url_Path = ''/a/repo'', url_String = ''https://github.com/a/repo''\<rparr>"

definition empty_world :: world where
  "empty_world =
     \<lparr>files = Map.empty, dirs = [], stdout = [], requests = [], open_handles = [], cwd = []\<rparr>"

text \<open>The servers and documents of the examples.\<close>

definition img_readme :: "(string \<times> nat \<times> string) list" where
  \<open>img_readme =
     [(''https://github.com/a/repo/raw/master/README.md'', 200, ''<img src="a.png?raw=true">'')]\<close>

text \<open>What the parser makes of a text: the nodes of the text inside \<open>html\<close> and \<open>body\<close>.\<close>

definition page :: "node list \<Rightarrow> document" where
  "page content = [Element ''html'' [] [Element ''head'' [] [], Element ''body'' [] content]]"

definition img_document :: document where
  "img_document = page [Element ''img'' [(''src'', ''a.png?raw=true'')] []]"

definition hi_document :: document where
  "hi_document = page [Text ''# hi'']"

definition pics_document :: document where
  "pics_document = page [Text ''![x](pics/a.png)'']"

definition non_authoritative_readme :: "(string \<times> nat \<times> string) list" where
  "non_authoritative_readme = [(''https://github.com/a/repo/raw/master/README.md'', 203, ''# hi'')]"

definition not_found_readme :: "(string \<times> nat \<times> string) list" where
  "not_found_readme = [(''https://github.com/a/repo/raw/master/README.md'', 404, ''Not Found'')]"

definition evil_readme :: "(string \<times> nat \<times> string) list" where
  "evil_readme = [(''https://github.com.evil.org/a/repo/raw/master/README.md'', 200, ''# hi'')]"

definition two_assets :: "(string \<times> nat \<times> string) list" where
  "two_assets =
     [(''https://github.com/a/repo/raw/master/a.png'', 200, ''A''),
      (''https://github.com/a/repo/raw/master/b.png'', 200, ''B'')]"

definition two_images :: document where
  "two_images =
     page [Element ''img'' [(''src'', ''a.png'')] [], Element ''img'' [(''src'', ''b.png'')] []]"



text \<open>
  Two references to one file, \<open>a.png\<close> and \<open>./a.png\<close>; the body of the second
  breaks off before its first byte.
\<close>

definition same_path_images :: document where
  "same_path_images =
     page [Element ''img'' [(''src'', ''a.png'')] [], Element ''img'' [(''src'', ''./a.png'')] []]"

definition broken_body_env :: env where
  "broken_body_env =
     (example_env two_assets same_path_images)
       \<lparr>http_Get :=
          (\<lambda>u. if u = ''https://github.com/a/repo/raw/master/./a.png''
               then Inr \<lparr>StatusCode = 200, Body = [], BodyErr = Some ''unexpected EOF''\<rparr>
               else serve two_assets u)\<rparr>"

section \<open>Facts about the library functions\<close>

lemma Contains_drop: "Contains (drop n s) x \<Longrightarrow> Contains s x"
proof (induction s arbitrary: n)
  case Nil
  then show ?case by simp
next
  case (Cons c cs)
  show ?case
  proof (cases n)
    case 0
    with Cons.prems show ?thesis by simp
  next
    case (Suc m)
    with Cons.prems have "Contains (drop m cs) x" by simp
    then have "Contains cs x" by (rule Cons.IH)
    then show ?thesis by simp
  qed
qed

lemma replace_nonempty_absent:
  "\<not> Contains s old \<Longrightarrow> replace_nonempty old new s = s"
  by (induction s) simp_all

section \<open>Stripping the raw-content marker from text\<close>

lemma strip_raw_suffix_Nil: "strip_raw_suffix [] = []"
  by (simp add: strip_raw_suffix_def Replace_def)

lemma strip_raw_suffix_Cons:
  "strip_raw_suffix (c # cs) =
     (if prefix ''?raw=true)'' (c # cs) then CHR '')'' # strip_raw_suffix (drop 9 cs)
      else c # strip_raw_suffix cs)"
  by (simp add: strip_raw_suffix_def Replace_def eval_nat_numeral)

lemma strip_raw_suffix_absent:
  "\<not> Contains s ''?raw=true)'' \<Longrightarrow> strip_raw_suffix s = s"
  by (simp add: strip_raw_suffix_def Replace_def replace_nonempty_absent)

text \<open>
  The output of the stripping read from its head: a character other than \<open>)\<close> was
  copied from the input; a \<open>)\<close> was copied, or stands for a marker that was replaced.
\<close>

lemma strip_head_other:
  assumes "strip_raw_suffix s = x # r" and "x \<noteq> CHR '')''"
  shows "\<exists>s'. s = x # s' \<and> strip_raw_suffix s' = r"
proof (cases s)
  case Nil
  with assms show ?thesis by (simp add: strip_raw_suffix_Nil)
next
  case (Cons a s0)
  with assms show ?thesis
    by (auto simp: strip_raw_suffix_Cons split: if_splits)
qed

lemma strip_head_paren:
  assumes "strip_raw_suffix s = CHR '')'' # r"
  shows "(\<exists>s'. s = CHR '')'' # s') \<or> prefix ''?raw=true)'' s"
proof (cases s)
  case Nil
  with assms show ?thesis by (simp add: strip_raw_suffix_Nil)
next
  case (Cons a s0)
  with assms show ?thesis
    by (auto simp: strip_raw_suffix_Cons split: if_splits)
qed

lemma strip_prefix_other:
  "strip_raw_suffix s = w @ r \<Longrightarrow> CHR '')'' \<notin> set w
     \<Longrightarrow> \<exists>s'. s = w @ s' \<and> strip_raw_suffix s' = r"
proof (induction w arbitrary: s)
  case Nil
  then show ?case by simp
next
  case (Cons x w)
  from Cons.prems have "strip_raw_suffix s = x # (w @ r)" and "x \<noteq> CHR '')''" by auto
  then obtain s1 where s1: "s = x # s1" "strip_raw_suffix s1 = w @ r"
    using strip_head_other by blast
  from Cons.prems have "CHR '')'' \<notin> set w" by simp
  with s1(2) obtain s' where "s1 = w @ s'" "strip_raw_suffix s' = r"
    using Cons.IH by blast
  with s1(1) show ?case by simp
qed

text \<open>
  A marker that begins the output either began the input, or arose from an input that
  began with \<open>?raw=true\<close> directly followed by a marker.
\<close>

lemma strip_new_occurrence:
  assumes "prefix ''?raw=true)'' (c # strip_raw_suffix cs)"
  shows "prefix ''?raw=true)'' (c # cs) \<or> prefix ''?raw=true?raw=true)'' (c # cs)"
proof -
  from assms obtain r where c: "c = CHR ''?''"
    and r: "strip_raw_suffix cs = ''raw=true'' @ (CHR '')'' # r)"
    by (auto simp: prefix_def)
  have "CHR '')'' \<notin> set ''raw=true''" by simp
  with r obtain s' where s': "cs = ''raw=true'' @ s'" "strip_raw_suffix s' = CHR '')'' # r"
    using strip_prefix_other by blast
  from strip_head_paren [OF s'(2)] show ?thesis
  proof
    assume "\<exists>t. s' = CHR '')'' # t"
    with c s'(1) show ?thesis by auto
  next
    assume "prefix ''?raw=true)'' s'"
    with c s'(1) show ?thesis by (auto simp: prefix_def)
  qed
qed

lemma strip_no_new_marker:
  "\<not> Contains s ''?raw=true?raw=true)'' \<Longrightarrow> \<not> Contains (strip_raw_suffix s) ''?raw=true)''"
proof (induction s rule: length_induct)
  case (1 s)
  show ?case
  proof (cases s)
    case Nil
    then show ?thesis by (simp add: strip_raw_suffix_Nil)
  next
    case (Cons c cs)
    show ?thesis
    proof (cases "prefix ''?raw=true)'' (c # cs)")
      case True
      have "\<not> Contains (drop 9 cs) ''?raw=true?raw=true)''"
        using "1.prems" Cons Contains_drop [of 9 cs] by auto
      moreover have "length (drop 9 cs) < length s" using Cons by simp
      ultimately have "\<not> Contains (strip_raw_suffix (drop 9 cs)) ''?raw=true)''"
        using "1.IH" by blast
      moreover have "strip_raw_suffix s = CHR '')'' # strip_raw_suffix (drop 9 cs)"
        using True Cons by (simp only: strip_raw_suffix_Cons if_True)
      moreover have "\<not> prefix ''?raw=true)'' (CHR '')'' # strip_raw_suffix (drop 9 cs))"
        by simp
      ultimately show ?thesis by (simp only: Contains.simps) blast
    next
      case False
      have nc: "\<not> Contains cs ''?raw=true?raw=true)''" using "1.prems" Cons by auto
      then have ih: "\<not> Contains (strip_raw_suffix cs) ''?raw=true)''"
        using "1.IH" Cons by simp
      have "\<not> prefix ''?raw=true?raw=true)'' (c # cs)" using "1.prems" Cons by auto
      with False have np: "\<not> prefix ''?raw=true)'' (c # strip_raw_suffix cs)"
        using strip_new_occurrence by blast
      have "strip_raw_suffix s = c # strip_raw_suffix cs"
        using False Cons by (simp only: strip_raw_suffix_Cons if_False)
      with ih np show ?thesis by (simp only: Contains.simps) blast
    qed
  qed
qed

text \<open>
  Claim C6, as stated: stripping the raw-content marker twice gives the same text as
  stripping it once, for every text. It fails where a marker is directly preceded by
  \<open>?raw=true\<close>: the first pass replaces \<open>?raw=true)\<close> by \<open>)\<close>, and that \<open>)\<close>
  completes a new marker with the text before it, which only a second pass replaces.
\<close>

theorem strip_raw_suffix_not_idempotent:
  "strip_raw_suffix (strip_raw_suffix ''?raw=true?raw=true))'') \<noteq> strip_raw_suffix ''?raw=true?raw=true))''"
  by (simp add: strip_raw_suffix_def Replace_def)

lemma Contains_prefix: "prefix x s \<Longrightarrow> Contains s x"
  by (cases s) simp_all

lemma Contains_skip:
  "Contains (w @ rest) (a # x) \<Longrightarrow> a \<notin> set w \<Longrightarrow> Contains rest (a # x)"
  by (induction w) auto

text \<open>The stripping never lengthens a text, and shortens every text with a marker.\<close>

lemma strip_length_le: "length (strip_raw_suffix s) \<le> length s"
proof (induction s rule: length_induct)
  case (1 s)
  show ?case
  proof (cases s)
    case Nil
    then show ?thesis by (simp add: strip_raw_suffix_Nil)
  next
    case (Cons c cs)
    have "length (drop 9 cs) < length s" and "length cs < length s"
      using Cons by simp_all
    with "1.IH" have "length (strip_raw_suffix (drop 9 cs)) \<le> length (drop 9 cs)"
      and "length (strip_raw_suffix cs) \<le> length cs"
      by blast+
    then have "length (strip_raw_suffix (drop 9 cs)) \<le> length cs"
      and "length (strip_raw_suffix cs) \<le> length cs"
      by simp_all
    then show ?thesis using Cons by (simp add: strip_raw_suffix_Cons)
  qed
qed

lemma strip_shrinks:
  "Contains s ''?raw=true)'' \<Longrightarrow> length (strip_raw_suffix s) < length s"
proof (induction s)
  case Nil
  then show ?case by simp
next
  case (Cons c cs)
  show ?case
  proof (cases "prefix ''?raw=true)'' (c # cs)")
    case True
    then have "9 \<le> length cs" by (auto simp: prefix_def)
    moreover have "length (strip_raw_suffix (drop 9 cs)) \<le> length cs - 9"
      using strip_length_le [of "drop 9 cs"] by simp
    moreover have "strip_raw_suffix (c # cs) = CHR '')'' # strip_raw_suffix (drop 9 cs)"
      using True by (simp only: strip_raw_suffix_Cons if_True)
    ultimately show ?thesis by simp
  next
    case False
    with Cons.prems have "Contains cs ''?raw=true)''" by (simp only: Contains.simps) blast
    then have "length (strip_raw_suffix cs) < length cs" by (rule Cons.IH)
    moreover have "strip_raw_suffix (c # cs) = c # strip_raw_suffix cs"
      using False by (simp only: strip_raw_suffix_Cons if_False)
    ultimately show ?thesis by simp
  qed
qed

text \<open>
  Conversely, a marker directly preceded by \<open>?raw=true\<close> leaves a marker behind.
\<close>

lemma strip_doubled_prefix:
  assumes "prefix ''?raw=true?raw=true)'' t"
  shows "prefix ''?raw=true)'' (strip_raw_suffix t)"
proof -
  from assms obtain rest where "t = ''?raw=true?raw=true)'' @ rest"
    by (auto simp: prefix_def)
  then show ?thesis by (simp add: strip_raw_suffix_Cons)
qed

lemma strip_keeps_doubled:
  "Contains t ''?raw=true?raw=true)'' \<Longrightarrow> Contains (strip_raw_suffix t) ''?raw=true)''"
proof (induction t rule: length_induct)
  case (1 t)
  show ?case
  proof (cases t)
    case Nil
    with "1.prems" show ?thesis by simp
  next
    case (Cons c cs)
    show ?thesis
    proof (cases "prefix ''?raw=true?raw=true)'' t")
      case True
      then show ?thesis by (intro Contains_prefix strip_doubled_prefix)
    next
      case False
      with "1.prems" Cons have in_cs: "Contains cs ''?raw=true?raw=true)''"
        by (simp only: Contains.simps) blast
      show ?thesis
      proof (cases "prefix ''?raw=true)'' (c # cs)")
        case True
        then have cs: "cs = ''raw=true)'' @ drop 9 cs" by (auto simp: prefix_def)
        have "Contains (''raw=true)'' @ drop 9 cs) (CHR ''?'' # ''raw=true?raw=true)'')"
          using in_cs cs by simp
        then have "Contains (drop 9 cs) (CHR ''?'' # ''raw=true?raw=true)'')"
          by (rule Contains_skip) simp
        moreover have "length (drop 9 cs) < length t" using Cons by simp
        ultimately have "Contains (strip_raw_suffix (drop 9 cs)) ''?raw=true)''"
          using "1.IH" by simp
        moreover have "strip_raw_suffix t = CHR '')'' # strip_raw_suffix (drop 9 cs)"
          using True Cons by (simp only: strip_raw_suffix_Cons if_True)
        ultimately show ?thesis by (simp only: Contains.simps) blast
      next
        case False
        have "Contains (strip_raw_suffix cs) ''?raw=true)''"
          using "1.IH" in_cs Cons by simp
        moreover have "strip_raw_suffix t = c # strip_raw_suffix cs"
          using False Cons by (simp only: strip_raw_suffix_Cons if_False)
        ultimately show ?thesis by (simp only: Contains.simps) blast
      qed
    qed
  qed
qed

text \<open>
  Claim C6, amended: stripping the raw-content marker twice gives the same text as
  stripping it once exactly for the texts that do not contain \<open>?raw=true?raw=true)\<close>
  (a marker directly preceded by \<open>?raw=true\<close>); in particular for every text with no
  marker, and for every text whose markers follow a path.
\<close>

theorem strip_raw_suffix_idempotent:
  "(strip_raw_suffix (strip_raw_suffix t) = strip_raw_suffix t) =
     (\<not> Contains t ''?raw=true?raw=true)'')"
proof
  assume eq: "strip_raw_suffix (strip_raw_suffix t) = strip_raw_suffix t"
  show "\<not> Contains t ''?raw=true?raw=true)''"
  proof
    assume "Contains t ''?raw=true?raw=true)''"
    then have "Contains (strip_raw_suffix t) ''?raw=true)''" by (rule strip_keeps_doubled)
    then have "length (strip_raw_suffix (strip_raw_suffix t)) < length (strip_raw_suffix t)"
      by (rule strip_shrinks)
    with eq show False by simp
  qed
next
  assume "\<not> Contains t ''?raw=true?raw=true)''"
  then have "\<not> Contains (strip_raw_suffix t) ''?raw=true)''" by (rule strip_no_new_marker)
  then show "strip_raw_suffix (strip_raw_suffix t) = strip_raw_suffix t"
    by (rule strip_raw_suffix_absent)
qed

theorem strip_raw_suffix_idempotent_witness:
  "\<not> Contains ''![a](b.png?raw=true) ?raw=true'' ''?raw=true?raw=true)'' \<and>
   strip_raw_suffix ''![a](b.png?raw=true) ?raw=true'' = ''![a](b.png) ?raw=true'' \<and>
   strip_raw_suffix (strip_raw_suffix ''![a](b.png?raw=true) ?raw=true'') = ''![a](b.png) ?raw=true''"
proof -
  have c: "\<not> Contains ''![a](b.png?raw=true) ?raw=true'' ''?raw=true?raw=true)''" by simp
  have s: "strip_raw_suffix ''![a](b.png?raw=true) ?raw=true'' = ''![a](b.png) ?raw=true''"
    by (simp add: strip_raw_suffix_def Replace_def)
  from strip_raw_suffix_idempotent [of "''![a](b.png?raw=true) ?raw=true''"] c s
  show ?thesis by simp
qed

section \<open>Facts about the pattern matcher\<close>

lemma first_some_SomeD:
  "first_some f xs = Some y \<Longrightarrow> \<exists>x \<in> set xs. f x = Some y"
  by (induction xs) (auto split: option.splits)

lemma take_takeWhile_all:
  "k \<le> length (takeWhile P s) \<Longrightarrow> \<forall>c \<in> set (take k s). P c"
proof (induction s arbitrary: k)
  case Nil
  then show ?case by simp
next
  case (Cons x xs)
  show ?case
  proof (cases k)
    case 0
    then show ?thesis by simp
  next
    case (Suc j)
    with Cons.prems have "P x" and "j \<le> length (takeWhile P xs)"
      by (auto split: if_splits)
    with Cons.IH Suc show ?thesis by simp
  qed
qed

lemma lit_star_lit_shape:
  assumes "rx_match [Lit a, AnyStar, Lit b] s = Some ms"
  shows "\<exists>k. k \<le> length (takeWhile (\<lambda>c. c \<noteq> CHR 0x0A) (drop (length a) s)) \<and>
             ms = [a, take k (drop (length a) s), b]"
proof -
  let ?t = "drop (length a) s"
  let ?f = "\<lambda>k. map_option ((#) (take k ?t)) (rx_match [Lit b] (drop k ?t))"
  from assms obtain r where r: "ms = a # r"
    and f: "first_some ?f (rev [0..<Suc (length (takeWhile (\<lambda>c. c \<noteq> CHR 0x0A) ?t))]) = Some r"
    by (auto simp del: upt_Suc split: if_splits)
  from first_some_SomeD [OF f] obtain k where
    km: "k \<in> set (rev [0..<Suc (length (takeWhile (\<lambda>c. c \<noteq> CHR 0x0A) ?t))])"
    and kr: "?f k = Some r"
    by blast
  from km have k: "k \<le> length (takeWhile (\<lambda>c. c \<noteq> CHR 0x0A) ?t)"
    by (simp del: upt_Suc add: less_Suc_eq_le)
  from kr have "r = [take k ?t, b]"
    by (auto split: if_splits)
  with r k show ?thesis by blast
qed

lemma aRemover_match_no_newline:
  assumes "rx_match (items aRemoverRegex) s = Some ms"
  shows "CHR 0x0A \<notin> set (concat ms)"
proof -
  from assms have "rx_match [Lit ''## <a '', AnyStar, Lit ''></a>''] s = Some ms"
    by (simp only: aRemoverRegex_def regexp.simps)
  from lit_star_lit_shape [OF this] obtain k where
    k: "k \<le> length (takeWhile (\<lambda>c. c \<noteq> CHR 0x0A) (drop (length ''## <a '') s))"
    and ms: "ms = [''## <a '', take k (drop (length ''## <a '') s), ''></a>'']" by blast
  from take_takeWhile_all [OF k] have "CHR 0x0A \<notin> set (take k (drop (length ''## <a '') s))" by blast
  with ms show ?thesis by simp
qed

lemma MatchString_iff:
  "MatchString re s = (\<exists>k\<le>length s. rx_match (items re) (drop k s) \<noteq> None)"
  unfolding MatchString_def by (auto simp del: upt_Suc simp: less_Suc_eq_le)

lemma MatchString_hd: "rx_match (items re) s \<noteq> None \<Longrightarrow> MatchString re s"
  unfolding MatchString_iff by (rule exI [of _ 0]) simp

lemma MatchString_tl: "MatchString re cs \<Longrightarrow> MatchString re (c # cs)"
  unfolding MatchString_iff
proof -
  assume "\<exists>k\<le>length cs. rx_match (items re) (drop k cs) \<noteq> None"
  then obtain k where "k \<le> length cs" "rx_match (items re) (drop k cs) \<noteq> None" by blast
  then have "Suc k \<le> length (c # cs) \<and> rx_match (items re) (drop (Suc k) (c # cs)) \<noteq> None" by simp
  then show "\<exists>k\<le>length (c # cs). rx_match (items re) (drop k (c # cs)) \<noteq> None" by blast
qed

lemma ReplaceAllString_no_match:
  "\<not> MatchString re s \<Longrightarrow> ReplaceAllString re s repl = s"
proof (induction s)
  case Nil
  then have "rx_match (items re) [] = None" using MatchString_hd by blast
  then show ?case by simp
next
  case (Cons c cs)
  then have "rx_match (items re) (c # cs) = None" using MatchString_hd by blast
  moreover have "\<not> MatchString re cs" using Cons.prems MatchString_tl by blast
  ultimately show ?case using Cons.IH by simp
qed

text \<open>
  Claim C8: canonicalization turns a document line consisting of
  \<open>## <a name="x"></a>Title\<close> into \<open>## Title\<close> (alone, and between other lines); a
  document in which the heading-anchor pattern matches nowhere is left unchanged by the
  replacement; and no match of the pattern contains a newline.
\<close>

theorem heading_anchor_removal:
  \<open>ReplaceAllString aRemoverRegex (strip_raw_suffix ''## <a name="x"></a>Title'') ''## '' =
     ''## Title'' \<and>
   ReplaceAllString aRemoverRegex
       (strip_raw_suffix ''intro\<newline>## <a name="x"></a>Title\<newline>body'') ''## '' =
     ''intro\<newline>## Title\<newline>body'' \<and>
   (\<forall>s. \<not> MatchString aRemoverRegex s \<longrightarrow> ReplaceAllString aRemoverRegex s ''## '' = s) \<and>
   (\<forall>s ms. rx_match (items aRemoverRegex) s = Some ms \<longrightarrow> CHR 0x0A \<notin> set (concat ms))\<close>
proof (intro conjI allI impI)
  show \<open>ReplaceAllString aRemoverRegex (strip_raw_suffix ''## <a name="x"></a>Title'') ''## '' =
     ''## Title''\<close>
    by (simp add: aRemoverRegex_def strip_raw_suffix_def Replace_def)
  show \<open>ReplaceAllString aRemoverRegex
       (strip_raw_suffix ''intro\<newline>## <a name="x"></a>Title\<newline>body'') ''## '' =
     ''intro\<newline>## Title\<newline>body''\<close>
    by (simp add: aRemoverRegex_def strip_raw_suffix_def Replace_def)
next
  fix s assume "\<not> MatchString aRemoverRegex s"
  then show "ReplaceAllString aRemoverRegex s ''## '' = s" by (rule ReplaceAllString_no_match)
next
  fix s ms assume "rx_match (items aRemoverRegex) s = Some ms"
  then show "CHR 0x0A \<notin> set (concat ms)" by (rule aRemover_match_no_newline)
qed

theorem heading_anchor_removal_witness:
  \<open>\<not> MatchString aRemoverRegex ''# Readme\<newline>text'' \<and>
   ReplaceAllString aRemoverRegex ''# Readme\<newline>text'' ''## '' = ''# Readme\<newline>text'' \<and>
   rx_match (items aRemoverRegex) ''## <a id="a"></a>T\<newline>## <a id="b"></a>U'' =
     Some [''## <a '', ''id="a"'', ''></a>''] \<and>
   CHR 0x0A \<notin> set (concat [''## <a '', ''id="a"'', ''></a>''])\<close>
proof -
  have a: \<open>\<not> MatchString aRemoverRegex ''# Readme\<newline>text''\<close>
    by (simp add: MatchString_def aRemoverRegex_def)
  have b: \<open>rx_match (items aRemoverRegex) ''## <a id="a"></a>T\<newline>## <a id="b"></a>U'' =
     Some [''## <a '', ''id="a"'', ''></a>'']\<close>
    by (simp add: aRemoverRegex_def)
  from heading_anchor_removal a b show ?thesis by metis
qed

section \<open>Extraction of asset references\<close>

text \<open>
  Claim C2 says that the inline-syntax pass extracts every path that does not start with
  an HTTP scheme and ends in an image extension, whatever its first character.
  \<open>[^https?://]\<close> rejects every path whose first character is one of
  \<open>h t p s ? : /\<close>: \<open>pics/a.png\<close> is not extracted, \<open>img/a.png\<close> is.
\<close>

theorem inline_links_first_character:
  "markdown_assets ''![x](pics/a.png)'' = [] \<and>
   concat (map example_render pics_document) =
     ''<html><head></head><body>![x](pics/a.png)</body></html>'' \<and>
   markdown_assets (concat (map example_render pics_document)) = [] \<and>
   markdown_assets ''![x](img/a.png)'' = [''img/a.png'']"
  by (simp add: markdown_assets_def strip_raw_suffix_def Replace_def regex_def submatches_def
      pics_document_def page_def)

lemma local_values_filter:
  "concat (map (\<lambda>s. local_attr s ''src'' @ local_attr s ''href'') xs) =
   filter (\<lambda>v. \<not> HasPrefix v ''http'')
     (concat (map (\<lambda>s. (case Attr s ''src'' of Some v \<Rightarrow> [v] | None \<Rightarrow> []) @
                        (case Attr s ''href'' of Some v \<Rightarrow> [v] | None \<Rightarrow> [])) xs))"
  by (induction xs) (auto simp: local_attr_def split: option.splits)

text \<open>
  Claim C9: the structural pass collects, in document order and unchanged, exactly those
  \<open>src\<close> and \<open>href\<close> values of the selected elements that do not begin with
  \<open>http\<close>; of the values \<open>https://x/y.png\<close>, \<open>img/a.png\<close>, \<open>http://z/b.svg\<close>,
  \<open>./c.gif\<close> exactly \<open>img/a.png\<close> and \<open>./c.gif\<close> are local.
\<close>

theorem structural_classification:
  "structural_assets readme =
     filter (\<lambda>v. \<not> HasPrefix v ''http'')
       (concat (map (\<lambda>s. (case Attr s ''src'' of Some v \<Rightarrow> [v] | None \<Rightarrow> []) @
                          (case Attr s ''href'' of Some v \<Rightarrow> [v] | None \<Rightarrow> [])) (Find readme))) \<and>
   structural_assets
     [Element ''img'' [(''src'', ''https://x/y.png'')] [],
      Element ''img'' [(''src'', ''img/a.png'')] [],
      Element ''img'' [(''src'', ''http://z/b.svg'')] [],
      Element ''img'' [(''src'', ''./c.gif'')] []] = [''img/a.png'', ''./c.gif'']"
proof
  show "structural_assets readme =
     filter (\<lambda>v. \<not> HasPrefix v ''http'')
       (concat (map (\<lambda>s. (case Attr s ''src'' of Some v \<Rightarrow> [v] | None \<Rightarrow> []) @
                          (case Attr s ''href'' of Some v \<Rightarrow> [v] | None \<Rightarrow> [])) (Find readme)))"
    unfolding structural_assets_def by (rule local_values_filter)
  show "structural_assets
     [Element ''img'' [(''src'', ''https://x/y.png'')] [],
      Element ''img'' [(''src'', ''img/a.png'')] [],
      Element ''img'' [(''src'', ''http://z/b.svg'')] [],
      Element ''img'' [(''src'', ''./c.gif'')] []] = [''img/a.png'', ''./c.gif'']"
    by (simp add: structural_assets_def Find_def local_attr_def HasPrefix_def)
qed

section \<open>The command line\<close>

text \<open>
  Claim C3 says that an invocation with two positional arguments proceeds with the given
  revision. \<open>main\<close> requires \<open>len(os.Args) = 2\<close>, that is one positional argument:
  with a link and a revision it prints the usage line and exits with status 1, in every
  environment.
\<close>

theorem two_arguments_print_usage:
  "main E [''readtheirs'', ''https://github.com/a/repo'', ''dev''] w =
     (Print ''Usage: go run main.go <github-repo-link> <branch-name>\<newline>'' w, Exited 1)"
  by (simp add: main_def)

section \<open>Effects of the operations\<close>

lemmas prim_defs = Get_def Print_def MkdirAll_def Create_def Copy_def Write_def Close_def

lemmas example_defs = resolve_def example_env_def serve_def example_url_def empty_world_def
  example_Join_def example_Base_def example_Dir_def example_Parse_def page_def


lemma resolve_update:
  "resolve E (w\<lparr>files := f\<rparr>) p = resolve E w p"
  "resolve E (w\<lparr>dirs := d\<rparr>) p = resolve E w p"
  "resolve E (w\<lparr>stdout := s\<rparr>) p = resolve E w p"
  "resolve E (w\<lparr>requests := r\<rparr>) p = resolve E w p"
  "resolve E (w\<lparr>open_handles := h\<rparr>) p = resolve E w p"
  by (simp_all add: resolve_def)

lemma getReadme_requests:
  "requests (snd (getReadme E u b w)) = requests w @ [url_String u @ ''/raw/'' @ b @ ''/README.md'']"
  by (auto simp: getReadme_def prim_defs Let_def
      split: sum.splits option.splits prod.splits if_splits)

lemma download_asset_requests:
  "requests (fst (download_asset E dir u b st a)) =
     requests (fst st) @ [url_String u @ ''/raw/'' @ b @ ''/'' @ a]"
  by (auto simp: download_asset_def prim_defs Let_def
      split: sum.splits option.splits prod.splits if_splits)


lemma download_loop_requests:
  "requests (fst (foldl (download_asset E dir u b) st assets)) =
     requests (fst st) @ map (\<lambda>a. url_String u @ ''/raw/'' @ b @ ''/'' @ a) assets"
  by (induction assets arbitrary: st) (simp_all add: download_asset_requests)


lemma run_deferred_frame:
  "requests (run_deferred hs w) = requests w \<and> stdout (run_deferred hs w) = stdout w \<and>
   files (run_deferred hs w) = files w \<and> cwd (run_deferred hs w) = cwd w"
  unfolding run_deferred_def by (induction hs arbitrary: w) (simp_all add: Close_def)

lemma downloadAssets_requests:
  "prefix (requests w) (requests (snd (downloadAssets E readme u b w)))"
  by (auto simp: downloadAssets_def MkdirAll_def Let_def run_deferred_frame download_loop_requests
      split: sum.splits option.splits prod.splits if_splits)

lemma write_script_requests:
  "requests (fst (write_script E repoLink u w)) = requests w"
  by (auto simp: write_script_def prim_defs Let_def
      split: sum.splits option.splits prod.splits if_splits)
section \<open>The document fetch\<close>

text \<open>
  Claim C7, as stated: every response with a 2xx status is accepted. A README answered
  with status 203 is refused like any other status that is not 200.
\<close>

theorem status_203_is_rejected:
  "fst (getReadme (example_env non_authoritative_readme hi_document) example_url ''master'' empty_world) =
     Inl (StatusError 203) \<and>
   Error (StatusError 203) = ''failed to retrieve the README.md file, status code: 203''"
  by (simp add: getReadme_def prim_defs example_defs non_authoritative_readme_def Let_def Itoa.simps)

text \<open>
  Claim C7, amended: the fetch of the document fails, as a transport error or as a status
  error, exactly when the GET suffers a transport error or returns a status other than
  200; the transport error is returned as it is, the status error carries the status. A
  response with status 200 is accepted, and when its body is read, parsed and persisted
  without error the fetcher returns the Parsed Document.
\<close>

theorem getReadme_fetch_failure:
  "(((\<exists>e. fst (getReadme E u b w) = Inl (TransportError e)) \<or>
     (\<exists>c. fst (getReadme E u b w) = Inl (StatusError c))) =
    (case http_Get E (url_String u @ ''/raw/'' @ b @ ''/README.md'') of
       Inl e \<Rightarrow> True
     | Inr resp \<Rightarrow> StatusCode resp \<noteq> 200)) \<and>
   (\<forall>e. http_Get E (url_String u @ ''/raw/'' @ b @ ''/README.md'') = Inl e \<longrightarrow>
      fst (getReadme E u b w) = Inl (TransportError e)) \<and>
   (\<forall>resp. http_Get E (url_String u @ ''/raw/'' @ b @ ''/README.md'') = Inr resp \<and>
      StatusCode resp \<noteq> 200 \<longrightarrow>
      fst (getReadme E u b w) = Inl (StatusError (StatusCode resp))) \<and>
   (\<forall>resp parsed. http_Get E (url_String u @ ''/raw/'' @ b @ ''/README.md'') = Inr resp \<and>
      StatusCode resp = 200 \<and> BodyErr resp = None \<and>
      NewDocumentFromReader E (Body resp) = Inr parsed \<and>
      Create_err E (resolve E w (Join E [''.'', Base E (url_Path u), ''README.md''])) = None \<and>
      Write_err E (resolve E w (Join E [''.'', Base E (url_Path u), ''README.md''])) = None \<longrightarrow>
      fst (getReadme E u b w) = Inr (map strip_node parsed))"
  by (auto simp: getReadme_def prim_defs resolve_update Let_def
      split: sum.splits option.splits prod.splits if_splits)

theorem getReadme_fetch_failure_witness:
  "fst (getReadme (example_env [] []) example_url ''master'' empty_world) =
     Inl (TransportError ''no such host'') \<and>
   fst (getReadme (example_env not_found_readme []) example_url ''master'' empty_world) =
     Inl (StatusError 404) \<and>
   fst (getReadme (example_env img_readme img_document) example_url ''master'' empty_world) =
     Inr (map strip_node img_document)"
proof -
  have a: "http_Get (example_env [] []) (url_String example_url @ ''/raw/'' @ ''master'' @ ''/README.md'') =
      Inl ''no such host''"
    by (simp add: example_env_def serve_def)
  have b: "http_Get (example_env not_found_readme [])
        (url_String example_url @ ''/raw/'' @ ''master'' @ ''/README.md'') =
      Inr \<lparr>StatusCode = 404, Body = ''Not Found'', BodyErr = None\<rparr>"
    by (simp add: example_env_def serve_def not_found_readme_def example_url_def)
  have c: \<open>http_Get (example_env img_readme img_document)
        (url_String example_url @ ''/raw/'' @ ''master'' @ ''/README.md'') =
      Inr \<lparr>StatusCode = 200, Body = ''<img src="a.png?raw=true">'', BodyErr = None\<rparr>\<close>
    by (simp add: example_env_def serve_def img_readme_def example_url_def)
  have d: "NewDocumentFromReader (example_env img_readme img_document) buf = Inr img_document"
    "Create_err (example_env img_readme img_document) p = None"
    "Write_err (example_env img_readme img_document) p = None" for buf p
    by (simp_all add: example_env_def)
  from getReadme_fetch_failure [of "example_env [] []" example_url "''master''" empty_world] a
  have 1: "fst (getReadme (example_env [] []) example_url ''master'' empty_world) =
     Inl (TransportError ''no such host'')" by blast
  from getReadme_fetch_failure [of "example_env not_found_readme []" example_url "''master''" empty_world] b
  have 2: "fst (getReadme (example_env not_found_readme []) example_url ''master'' empty_world) =
     Inl (StatusError 404)" by simp
  from getReadme_fetch_failure [of "example_env img_readme img_document" example_url "''master''" empty_world] c d
  have 3: "fst (getReadme (example_env img_readme img_document) example_url ''master'' empty_world) =
     Inr (map strip_node img_document)" by simp
  from 1 2 3 show ?thesis by blast
qed

lemma canonical_text_unchanged:
  "\<not> Contains raw ''?raw=true)'' \<Longrightarrow> \<not> MatchString aRemoverRegex raw \<Longrightarrow>
     ReplaceAllString aRemoverRegex (strip_raw_suffix raw) ''## '' = raw"
  by (simp add: strip_raw_suffix_absent ReplaceAllString_no_match)

text \<open>
  Claim C1, as stated: where an \<open>img\<close> element carries the marker in its \<open>src\<close>, the
  text persisted to README.md has the marker stripped from that value. The file is
  written from the raw text, in which only \<open>?raw=true)\<close> is replaced: for the document
  \<open><img src="a.png?raw=true">\<close> the returned structure has \<open>src = a.png\<close>, and the file
  keeps \<open>a.png?raw=true\<close>.
\<close>

theorem persisted_readme_keeps_attribute_marker:
  \<open>fst (getReadme (example_env img_readme img_document) example_url ''master'' empty_world) =
     Inr (page [Element ''img'' [(''src'', ''a.png'')] []]) \<and>
   files (snd (getReadme (example_env img_readme img_document) example_url ''master'' empty_world))
     ''repo/README.md'' = Some ''<img src="a.png?raw=true">''\<close>
  by (simp add: getReadme_def prim_defs example_defs img_readme_def img_document_def Let_def
      strip_attr_def Replace_def strip_raw_suffix_def aRemoverRegex_def)

text \<open>
  Claim C1, amended: when the Document Fetcher succeeds, the text persisted to README.md
  is the raw response text in which every \<open>?raw=true)\<close> is replaced by \<open>)\<close> and every
  heading anchor by the bare heading marker; a raw text with neither is persisted
  unchanged, whatever markers its attribute values carry. The stripping of the marker
  from the \<open>src\<close> and \<open>href\<close> values of the selected elements is applied to the
  returned Parsed Document only.
\<close>

theorem getReadme_persists_raw_text:
  assumes "getReadme E u b w = (Inr doc, w')"
  shows "\<exists>resp parsed.
           http_Get E (url_String u @ ''/raw/'' @ b @ ''/README.md'') = Inr resp \<and>
           NewDocumentFromReader E (Body resp) = Inr parsed \<and>
           doc = map strip_node parsed \<and>
           files w' (resolve E w (Join E [''.'', Base E (url_Path u), ''README.md''])) =
             Some (ReplaceAllString aRemoverRegex (strip_raw_suffix (Body resp)) ''## '') \<and>
           (\<not> Contains (Body resp) ''?raw=true)'' \<and> \<not> MatchString aRemoverRegex (Body resp) \<longrightarrow>
              files w' (resolve E w (Join E [''.'', Base E (url_Path u), ''README.md''])) =
                Some (Body resp))"
  using assms
  by (auto simp: getReadme_def prim_defs resolve_update Let_def canonical_text_unchanged
      split: sum.splits option.splits prod.splits if_splits)

theorem getReadme_persists_raw_text_witness:
  \<open>getReadme (example_env img_readme img_document) example_url ''master'' empty_world =
     (Inr (page [Element ''img'' [(''src'', ''a.png'')] []]),
      empty_world\<lparr>files := [''repo/README.md'' \<mapsto> ''<img src="a.png?raw=true">''],
                   requests := [''https://github.com/a/repo/raw/master/README.md'']\<rparr>) \<and>
   (\<exists>resp parsed.
      http_Get (example_env img_readme img_document)
        (url_String example_url @ ''/raw/'' @ ''master'' @ ''/README.md'') = Inr resp \<and>
      NewDocumentFromReader (example_env img_readme img_document) (Body resp) = Inr parsed \<and>
      page [Element ''img'' [(''src'', ''a.png'')] []] = map strip_node parsed \<and>
      Body resp = ''<img src="a.png?raw=true">'')\<close>
proof -
  let ?E = "example_env img_readme img_document"
  have g: \<open>getReadme ?E example_url ''master'' empty_world =
     (Inr (page [Element ''img'' [(''src'', ''a.png'')] []]),
      empty_world\<lparr>files := [''repo/README.md'' \<mapsto> ''<img src="a.png?raw=true">''],
                   requests := [''https://github.com/a/repo/raw/master/README.md'']\<rparr>)\<close>
    by (simp add: getReadme_def prim_defs example_defs img_readme_def img_document_def Let_def
        strip_attr_def Replace_def strip_raw_suffix_def aRemoverRegex_def)
  from getReadme_persists_raw_text [OF g] g show ?thesis
    by (auto simp: example_env_def serve_def img_readme_def example_url_def)
qed
section \<open>Host validation\<close>

lemma main_after_validation:
  assumes "length Args = 2" and "url_Parse E (Args ! 1) = Inr u"
    and "prefix ''github.com'' (url_Host u)"
  shows "prefix (requests w @ [url_String u @ ''/raw/master/README.md''])
           (requests (fst (main E Args w)))"
proof -
  let ?w1 = "snd (MkdirAll E (Join E [''.'', Base E (url_Path u)]) w)"
  have r1: "requests ?w1 = requests w"
    by (simp add: MkdirAll_def split: option.splits)
  have g: "requests (snd (getReadme E u ''master'' ?w1)) =
      requests w @ [url_String u @ ''/raw/master/README.md'']"
    using getReadme_requests [of E u "''master''" ?w1] r1 by simp
  show ?thesis
  proof (cases "getReadme E u ''master'' ?w1")
    case (Pair r w2)
    with g have w2: "requests w2 = requests w @ [url_String u @ ''/raw/master/README.md'']"
      by simp
    show ?thesis
    proof (cases r)
      case (Inl err)
      with Pair assms w2 show ?thesis by (simp add: main_def HasPrefix_def)
    next
      case (Inr readme)
      show ?thesis
      proof (cases "downloadAssets E readme u ''master'' w2")
        case (Pair r3 w3)
        have p3: "prefix (requests w2) (requests w3)"
          using downloadAssets_requests [of w2 E readme u "''master''"] Pair by simp
        show ?thesis
        proof (cases r3)
          case None
          with Pair Inr \<open>getReadme E u ''master'' ?w1 = (r, w2)\<close> assms
          have "main E Args w = write_script E (Args ! 1) u w3"
            by (simp add: main_def HasPrefix_def)
          with p3 w2 show ?thesis by (simp add: write_script_requests)
        next
          case (Some err)
          with Pair Inr \<open>getReadme E u ''master'' ?w1 = (r, w2)\<close> assms
          have "fst (main E Args w) = w3"
            by (simp add: main_def HasPrefix_def)
          with p3 w2 show ?thesis by simp
        qed
      qed
    qed
  qed
qed

text \<open>
  Claim C4 says that every link whose host is not \<open>github.com\<close> is refused with a
  diagnostic before any HTTP request. The check is
  \<open>strings.HasPrefix(u.Host, "github.com")\<close>, and a host that only begins with these
  characters passes it: for \<open>https://github.com.evil.org/a/repo\<close> nothing is printed,
  the README is requested from that host, and the run returns, where the diagnostic
  \<open>The provided link is not a GitHub repository link\<close> was due.
\<close>

theorem host_prefix_accepts_other_hosts:
  "url_Parse (example_env evil_readme hi_document) ''https://github.com.evil.org/a/repo'' =
     Inr \<lparr>url_Host = ''github.com.evil.org'', url_Path = ''/a/repo'',
          url_String = ''https://github.com.evil.org/a/repo''\<rparr> \<and>
   requests (fst (main (example_env evil_readme hi_document)
      [''readtheirs'', ''https://github.com.evil.org/a/repo''] empty_world)) =
     [''https://github.com.evil.org/a/repo/raw/master/README.md''] \<and>
   stdout (fst (main (example_env evil_readme hi_document)
      [''readtheirs'', ''https://github.com.evil.org/a/repo''] empty_world)) = [] \<and>
   snd (main (example_env evil_readme hi_document)
      [''readtheirs'', ''https://github.com.evil.org/a/repo''] empty_world) = Returned"
  by (simp add: main_def getReadme_def downloadAssets_def write_script_def prim_defs example_defs
      evil_readme_def hi_document_def Let_def HasPrefix_def strip_raw_suffix_def Replace_def
      aRemoverRegex_def structural_assets_def Find_def markdown_assets_def regex_def)

text \<open>
  What the check decides for every link that parses: a host that does not begin with
  \<open>github.com\<close> is refused with the diagnostic and exit status 1, and no request is
  issued; behind a host that begins with \<open>github.com\<close>, as \<open>github.com\<close> itself
  does, the request for the README at the default branch comes next.
\<close>

theorem host_validation:
  assumes "length Args = 2" and "url_Parse E (Args ! 1) = Inr u"
  shows "(\<not> prefix ''github.com'' (url_Host u) \<longrightarrow>
            main E Args w =
              (Print ''The provided link is not a GitHub repository link\<newline>'' w, Exited 1) \<and>
            requests (fst (main E Args w)) = requests w \<and>
            exit_code (snd (main E Args w)) = 1) \<and>
         (prefix ''github.com'' (url_Host u) \<longrightarrow>
            prefix (requests w @ [url_String u @ ''/raw/master/README.md''])
              (requests (fst (main E Args w))))"
proof (intro conjI impI)
  assume n: "\<not> prefix ''github.com'' (url_Host u)"
  with assms show m: "main E Args w =
      (Print ''The provided link is not a GitHub repository link\<newline>'' w, Exited 1)"
    by (simp add: main_def HasPrefix_def)
  from m show "requests (fst (main E Args w)) = requests w" by (simp add: Print_def)
  from m show "exit_code (snd (main E Args w)) = 1" by simp
next
  assume "prefix ''github.com'' (url_Host u)"
  with assms show "prefix (requests w @ [url_String u @ ''/raw/master/README.md''])
      (requests (fst (main E Args w)))"
    by (rule main_after_validation)
qed

theorem host_validation_example:
  "main (example_env [] []) [''readtheirs'', ''https://gitlab.com/a/repo''] empty_world =
     (Print ''The provided link is not a GitHub repository link\<newline>'' empty_world, Exited 1) \<and>
   requests (fst (main (example_env [] []) [''readtheirs'', ''https://gitlab.com/a/repo'']
     empty_world)) = [] \<and>
   prefix [''https://github.com/a/repo/raw/master/README.md'']
     (requests (fst (main (example_env [] []) [''readtheirs'', ''https://github.com/a/repo'']
        empty_world)))"
proof -
  have l: "length [''readtheirs'', x] = 2" for x :: string by simp
  have p1: "url_Parse (example_env [] []) ([''readtheirs'', ''https://gitlab.com/a/repo''] ! 1) =
      Inr \<lparr>url_Host = ''gitlab.com'', url_Path = ''/a/repo'',
           url_String = ''https://gitlab.com/a/repo''\<rparr>"
    by (simp add: example_env_def example_Parse_def)
  have p2: "url_Parse (example_env [] []) ([''readtheirs'', ''https://github.com/a/repo''] ! 1) =
      Inr \<lparr>url_Host = ''github.com'', url_Path = ''/a/repo'',
           url_String = ''https://github.com/a/repo''\<rparr>"
    by (simp add: example_env_def example_Parse_def)
  from host_validation [OF l p1, of empty_world] host_validation [OF l p2, of empty_world]
  show ?thesis by (simp add: empty_world_def Print_def)
qed

section \<open>The download loop\<close>











lemmas run_defs = downloadAssets_def download_asset_def run_deferred_def structural_assets_def
  Find_def local_attr_def HasPrefix_def markdown_assets_def strip_raw_suffix_def Replace_def
  regex_def Let_def


text \<open>
  Why the later references matter: \<open>a.png\<close> and \<open>./a.png\<close> are written to the same
  file. The first succeeds on its own; the copy of the second fails, and the file is
  left as that failed copy left it.
\<close>

lemma later_reference_to_same_path_truncates:
  "asset_succeeds broken_body_env empty_world ''repo'' example_url ''master'' ''a.png'' \<and>
   asset_path broken_body_env empty_world ''repo'' ''a.png'' = ''repo/a.png'' \<and>
   asset_path broken_body_env empty_world ''repo'' ''./a.png'' = ''repo/a.png'' \<and>
   files (snd (downloadAssets broken_body_env same_path_images example_url ''master'' empty_world))
     ''repo/a.png'' = Some [] \<and>
   stdout (snd (downloadAssets broken_body_env same_path_images example_url ''master'' empty_world)) =
     [''failed to write content to file repo/a.png: unexpected EOF\<newline>'']"
  by (simp add: asset_succeeds_def asset_path_def broken_body_env_def run_defs prim_defs example_defs
      two_assets_def same_path_images_def)

text \<open>
  Claim C10 says that the response body and the file opened in an iteration are closed
  at the end of that iteration. Both \<open>Close\<close> calls are deferred to the return of
  \<open>downloadAssets\<close>: after the first of two assets its file and its body are still
  open, after the second all four handles are, and they are closed only when the
  function returns.
\<close>

theorem handles_stay_open_across_iterations:
  "open_handles (fst (download_asset (example_env two_assets two_images) ''repo'' example_url
      ''master'' (empty_world, []) ''a.png'')) =
     [File ''repo/a.png'', RespBody ''https://github.com/a/repo/raw/master/a.png''] \<and>
   open_handles (fst (foldl (download_asset (example_env two_assets two_images) ''repo'' example_url
      ''master'') (empty_world, []) [''a.png'', ''b.png''])) =
     [File ''repo/b.png'', RespBody ''https://github.com/a/repo/raw/master/b.png'',
      File ''repo/a.png'', RespBody ''https://github.com/a/repo/raw/master/a.png''] \<and>
   structural_assets two_images @ markdown_assets (concat (map example_render two_images)) =
     [''a.png'', ''b.png''] \<and>
   open_handles (snd (downloadAssets (example_env two_assets two_images) two_images example_url
      ''master'' empty_world)) = []"
  by (simp add: run_defs prim_defs example_defs two_assets_def two_images_def)

end
